theory Spec2Isabelle
  imports Main
begin

section \<open>The Task table\<close>

text \<open>
  The table \<^verbatim>\<open>Task (id INTEGER PRIMARY KEY AUTOINCREMENT, title, position, board_id)\<close>
  is a list of rows in insertion order. The store also carries the AUTOINCREMENT
  counter, from which \<^verbatim>\<open>this.lastID\<close> of an INSERT is taken.

  Every SQL statement of the repository is assumed to execute: the \<^verbatim>\<open>err\<close>
  branches of the callbacks (a failure of the store itself) are outside the model.
  Arguments are taken at the types the JSDoc comments declare (numbers are integers,
  titles are strings); an argument that is \<^verbatim>\<open>undefined\<close> is \<open>None\<close>.
\<close>

record task_row =
  row_id :: int
  title :: string
  position :: int
  board_id :: int

record store =
  tasks :: "task_row list"
  lastID :: int

datatype error = Error string

text \<open>The primary key: ids are unique, positive and never above the counter, which
  starts at 0.\<close>

definition wf_store :: "store \<Rightarrow> bool" where
  "wf_store s \<longleftrightarrow> distinct (map row_id (tasks s)) \<and> 0 \<le> lastID s \<and>
     (\<forall>r \<in> set (tasks s). 0 < row_id r \<and> row_id r \<le> lastID s)"

subsection \<open>The SQL statements\<close>

text \<open>\<^verbatim>\<open>SELECT * FROM Task WHERE id = ?\<close>\<close>

definition select_by_id :: "int \<Rightarrow> task_row list \<Rightarrow> task_row option" where
  "select_by_id i rows = find (\<lambda>r. row_id r = i) rows"

text \<open>\<^verbatim>\<open>UPDATE Task SET position = ? WHERE id = ?\<close>\<close>

definition update_position :: "int \<Rightarrow> int \<Rightarrow> task_row list \<Rightarrow> task_row list" where
  "update_position p i rows = map (\<lambda>r. if row_id r = i then r\<lparr>position := p\<rparr> else r) rows"

text \<open>\<^verbatim>\<open>UPDATE Task SET board_id = ?, position = ? WHERE id = ?\<close>\<close>

definition update_board_position :: "int \<Rightarrow> int \<Rightarrow> int \<Rightarrow> task_row list \<Rightarrow> task_row list" where
  "update_board_position b p i rows =
     map (\<lambda>r. if row_id r = i then r\<lparr>position := p, board_id := b\<rparr> else r) rows"

text \<open>\<^verbatim>\<open>UPDATE Task SET position = position + 1
  WHERE board_id = ? AND position >= ? AND position < ?\<close>\<close>

definition increment_between :: "int \<Rightarrow> int \<Rightarrow> int \<Rightarrow> task_row list \<Rightarrow> task_row list" where
  "increment_between b lo hi rows =
     map (\<lambda>r. if board_id r = b \<and> lo \<le> position r \<and> position r < hi
               then r\<lparr>position := position r + 1\<rparr> else r) rows"

text \<open>\<^verbatim>\<open>UPDATE Task SET position = position - 1
  WHERE board_id = ? AND position > ? AND position <= ?\<close>\<close>

definition decrement_between :: "int \<Rightarrow> int \<Rightarrow> int \<Rightarrow> task_row list \<Rightarrow> task_row list" where
  "decrement_between b lo hi rows =
     map (\<lambda>r. if board_id r = b \<and> lo < position r \<and> position r \<le> hi
               then r\<lparr>position := position r - 1\<rparr> else r) rows"

text \<open>\<^verbatim>\<open>DELETE FROM Task WHERE id = ?\<close>\<close>

definition delete_by_id :: "int \<Rightarrow> task_row list \<Rightarrow> task_row list" where
  "delete_by_id i rows = filter (\<lambda>r. row_id r \<noteq> i) rows"

text \<open>The rows of one board, and their positions.\<close>

definition rows_of :: "int \<Rightarrow> task_row list \<Rightarrow> task_row list" where
  "rows_of b rows = filter (\<lambda>r. board_id r = b) rows"

definition positions_in :: "int \<Rightarrow> task_row list \<Rightarrow> int list" where
  "positions_in b rows = map position (rows_of b rows)"

text \<open>\<^verbatim>\<open>SELECT COALESCE(MAX(position), 0) as maxPos FROM Task WHERE board_id = ?\<close>\<close>

definition max_position :: "int \<Rightarrow> task_row list \<Rightarrow> int" where
  "max_position b rows =
     (case positions_in b rows of [] \<Rightarrow> 0 | p # ps \<Rightarrow> fold max ps p)"

text \<open>\<^verbatim>\<open>SELECT id FROM Task WHERE board_id = ? ORDER BY position ASC\<close>; rows of equal
  position are returned in table order.\<close>

definition ids_by_position :: "int \<Rightarrow> task_row list \<Rightarrow> int list" where
  "ids_by_position b rows = map row_id (sort_key position (rows_of b rows))"

section \<open>The Task entity\<close>

text \<open>\<^verbatim>\<open>String.prototype.trim\<close> on strings of 8-bit code units: the white space and
  line terminators below 256 are TAB, LF, VT, FF, CR, SP and NBSP.\<close>

definition is_space :: "char \<Rightarrow> bool" where
  "is_space c \<longleftrightarrow> of_char c \<in> {9, 10, 11, 12, 13, 32, 160 :: nat}"

definition trim :: "string \<Rightarrow> string" where
  "trim s = rev (dropWhile is_space (rev (dropWhile is_space s)))"

text \<open>The payload of create and update; a missing field is \<open>None\<close>.\<close>

record task_data =
  data_title :: "string option"
  data_position :: "int option"
  data_board_id :: "int option"

text \<open>\<^verbatim>\<open>new Task(id, title, position, board_id)\<close>: the constructor assigns its
  arguments to the fields as they are.\<close>

definition Task :: "int \<Rightarrow> string \<Rightarrow> int \<Rightarrow> int \<Rightarrow> task_row" where
  "Task i t p b = \<lparr>row_id = i, title = t, position = p, board_id = b\<rparr>"

text \<open>\<^verbatim>\<open>setTitle\<close>: the setter rejects a blank title and stores the trimmed one.\<close>

definition setTitle :: "string \<Rightarrow> task_row \<Rightarrow> error + task_row" where
  "setTitle t r =
     (if trim t = [] then Inl (Error ''Title must be a non-empty string'')
      else Inr (r\<lparr>title := trim t\<rparr>))"

text \<open>\<^verbatim>\<open>validate\<close>\<close>

definition validate :: "task_row \<Rightarrow> bool" where
  "validate r \<longleftrightarrow> title r \<noteq> [] \<and> trim (title r) \<noteq> [] \<and> position r \<ge> 0 \<and> board_id r > 0"

section \<open>TaskRepository\<close>

text \<open>\<^verbatim>\<open>create(data, callback)\<close>. The id of the object under construction is
  \<^verbatim>\<open>null\<close> until the INSERT has run; the model builds the row with the id the INSERT
  assigns.\<close>

definition create :: "task_data \<Rightarrow> store \<Rightarrow> error + (task_row \<times> store)" where
  "create data s =
     (case (data_title data, data_position data, data_board_id data) of
        (Some t, Some p, Some b) \<Rightarrow>
          if t = [] \<or> b = 0 then Inl (Error ''title, position, and board_id are required'')
          else
            let task = Task (lastID s + 1) t p b in
            if \<not> validate task then Inl (Error ''Invalid task data'')
            else Inr (task, \<lparr>tasks = tasks s @ [task], lastID = lastID s + 1\<rparr>)
      | _ \<Rightarrow> Inl (Error ''title, position, and board_id are required''))"

text \<open>\<^verbatim>\<open>update(id, data, callback)\<close>\<close>

definition update :: "int \<Rightarrow> task_data \<Rightarrow> store \<Rightarrow> error + (task_row \<times> store)" where
  "update i data s =
     (case (data_title data, data_position data, data_board_id data) of
        (Some t, Some p, Some b) \<Rightarrow>
          if t = [] \<or> b = 0 then Inl (Error ''title, position, and board_id are required'')
          else
            let task = Task i t p b in
            if \<not> validate task then Inl (Error ''Invalid task data'')
            else Inr (task,
              s\<lparr>tasks := map (\<lambda>r. if row_id r = i then task else r) (tasks s)\<rparr>)
      | _ \<Rightarrow> Inl (Error ''title, position, and board_id are required''))"

text \<open>\<^verbatim>\<open>delete(id, callback)\<close>: one DELETE statement and nothing else.\<close>

definition delete :: "int \<Rightarrow> store \<Rightarrow> error + store" where
  "delete i s = Inr (s\<lparr>tasks := delete_by_id i (tasks s)\<rparr>)"

text \<open>\<^verbatim>\<open>reorder(taskId1, taskId2, callback)\<close>\<close>

definition reorder :: "int \<Rightarrow> int \<Rightarrow> store \<Rightarrow> error + store" where
  "reorder taskId1 taskId2 s =
     (if taskId1 = 0 \<or> taskId2 = 0 then Inl (Error ''Both task IDs are required'')
      else case select_by_id taskId1 (tasks s) of
        None \<Rightarrow> Inl (Error ''Task 1 not found'')
      | Some task1 \<Rightarrow>
         (case select_by_id taskId2 (tasks s) of
            None \<Rightarrow> Inl (Error ''Task 2 not found'')
          | Some task2 \<Rightarrow>
              let tempPosition = position task1 in
              Inr (s\<lparr>tasks := update_position tempPosition taskId2
                                (update_position (position task2) taskId1 (tasks s))\<rparr>)))"

text \<open>\<^verbatim>\<open>reorderByPosition(taskId, newPosition, callback)\<close>\<close>

definition reorderByPosition :: "int \<Rightarrow> int option \<Rightarrow> store \<Rightarrow> error + store" where
  "reorderByPosition taskId newPosition s =
     (case newPosition of
        None \<Rightarrow> Inl (Error ''Task ID and new position are required'')
      | Some newPos \<Rightarrow>
          if taskId = 0 then Inl (Error ''Task ID and new position are required'')
          else
           (case select_by_id taskId (tasks s) of
              None \<Rightarrow> Inl (Error ''Task not found'')
            | Some task \<Rightarrow>
                let boardId = board_id task; oldPosition = position task in
                if oldPosition = newPos then Inr s
                else if newPos < oldPosition then
                  Inr (s\<lparr>tasks := update_position newPos taskId
                         (increment_between boardId newPos oldPosition (tasks s))\<rparr>)
                else
                  Inr (s\<lparr>tasks := update_position newPos taskId
                         (decrement_between boardId oldPosition newPos (tasks s))\<rparr>)))"

text \<open>The renumbering loop of \<^verbatim>\<open>moveToBoard\<close>:
  \<^verbatim>\<open>rows.forEach((row, index) => UPDATE Task SET position = index + 1 WHERE id = row.id)\<close>\<close>

fun renumber :: "nat \<Rightarrow> int list \<Rightarrow> task_row list \<Rightarrow> task_row list" where
  "renumber index [] rows = rows"
| "renumber index (i # ids) rows =
     renumber (Suc index) ids (update_position (int index + 1) i rows)"

text \<open>\<^verbatim>\<open>moveToBoard(taskId, newBoardId, newPosition, callback)\<close>. Both branches run the
  same statements; they differ in the position written. The unused
  \<^verbatim>\<open>positionToUse\<close> query writes nothing.\<close>

definition moveToBoard :: "int \<Rightarrow> int \<Rightarrow> int option \<Rightarrow> store \<Rightarrow> error + (task_row \<times> store)" where
  "moveToBoard taskId newBoardId newPosition s =
     (if taskId = 0 \<or> newBoardId = 0 then Inl (Error ''Task ID and new board ID are required'')
      else case select_by_id taskId (tasks s) of
        None \<Rightarrow> Inl (Error ''Task not found'')
      | Some task \<Rightarrow>
          let oldBoardId = board_id task in
          if oldBoardId = newBoardId then Inl (Error ''Task is already in this board'')
          else
            let finalPosition =
                  (case newPosition of
                     None \<Rightarrow> max_position newBoardId (tasks s) + 1
                   | Some p \<Rightarrow> p);
                moved = update_board_position newBoardId finalPosition taskId (tasks s);
                rows = ids_by_position oldBoardId moved
            in Inr (Task (row_id task) (title task) finalPosition newBoardId,
                    s\<lparr>tasks := renumber 0 rows moved\<rparr>))"

section \<open>TaskController.reorderByPosition\<close>

text \<open>The values a request can carry: \<^verbatim>\<open>req.params.id\<close> is the text of a path
  segment, \<^verbatim>\<open>req.body.newPosition\<close> is any JSON value or missing.\<close>

datatype jsval =
    JUndefined
  | JNull
  | JBool bool
  | JInt int
  | JNaN
  | JNonInt
  | JStr string
  | JObject

text \<open>\<^verbatim>\<open>!v\<close>\<close>

fun js_not :: "jsval \<Rightarrow> bool" where
  "js_not JUndefined = True"
| "js_not JNull = True"
| "js_not (JBool b) = (\<not> b)"
| "js_not (JInt i) = (i = 0)"
| "js_not JNaN = True"
| "js_not JNonInt = False"
| "js_not (JStr t) = (t = [])"
| "js_not JObject = False"

text \<open>\<^verbatim>\<open>Number.isInteger(v)\<close>: no coercion, so only a number can pass.\<close>

fun isInteger :: "jsval \<Rightarrow> bool" where
  "isInteger (JInt i) = True"
| "isInteger v = False"

datatype handler_step = SendError nat string | CallRepository int int

text \<open>The checks of the handler, up to the call of the repository.\<close>

definition reorderByPosition_checks :: "jsval \<Rightarrow> jsval \<Rightarrow> handler_step" where
  "reorderByPosition_checks ident newPosition =
     (if js_not ident \<or> newPosition = JUndefined
        then SendError 400 ''Task ID dan newPosition harus disediakan''
      else if \<not> isInteger ident \<or> \<not> isInteger newPosition
        then SendError 400 ''Task ID dan newPosition harus berupa angka''
      else case (ident, newPosition) of
        (JInt i, JInt n) \<Rightarrow>
          if n < 0 then SendError 400 ''newPosition harus non-negatif''
          else CallRepository i n
      | _ \<Rightarrow> SendError 400 ''Task ID dan newPosition harus berupa angka'')"

datatype response = Response nat string

definition reorderByPosition_handler :: "jsval \<Rightarrow> jsval \<Rightarrow> store \<Rightarrow> response \<times> store" where
  "reorderByPosition_handler ident newPosition s =
     (case reorderByPosition_checks ident newPosition of
        SendError code msg \<Rightarrow> (Response code msg, s)
      | CallRepository i n \<Rightarrow>
          (case reorderByPosition i (Some n) s of
             Inl (Error msg) \<Rightarrow> (Response 400 msg, s)
           | Inr s' \<Rightarrow> (Response 200 ''Task position updated successfully'', s')))"

text \<open>The route \<^verbatim>\<open>PUT /:id/reorder-position\<close> hands the path segment to the handler as
  a string.\<close>

definition put_reorder_position :: "string \<Rightarrow> jsval \<Rightarrow> store \<Rightarrow> response \<times> store" where
  "put_reorder_position seg newPosition s = reorderByPosition_handler (JStr seg) newPosition s"

section \<open>Density\<close>

text \<open>The positions of a board are dense when they are exactly \<open>0, \<dots>, n - 1\<close> for
  its \<open>n\<close> rows.\<close>

definition dense_board :: "int \<Rightarrow> task_row list \<Rightarrow> bool" where
  "dense_board b rows \<longleftrightarrow>
     set (positions_in b rows) = {0 ..< int (length (positions_in b rows))}"

definition dense :: "task_row list \<Rightarrow> bool" where
  "dense rows \<longleftrightarrow> (\<forall>b \<in> set (map board_id rows). dense_board b rows)"

section \<open>A board with three tasks\<close>

text \<open>Board 1 holds A at position 0, B at 1 and C at 2; board 2 is empty.\<close>

definition scenario :: store where
  "scenario = \<lparr>tasks = [Task 1 ''A'' 0 1, Task 2 ''B'' 1 1, Task 3 ''C'' 2 1], lastID = 3\<rparr>"

section \<open>The shift rule of a move within a board\<close>

text \<open>The position that "shift the rows in between, then place the row" gives a row
  \<open>r\<close>, when the row \<open>t\<close> of board \<open>b\<close> goes from position \<open>old\<close> to position \<open>new\<close>:
  rows in \<open>[new, old)\<close> go up by one, rows in \<open>(old, new]\<close> go down by one.\<close>

definition moved_position :: "int \<Rightarrow> int \<Rightarrow> int \<Rightarrow> int \<Rightarrow> task_row \<Rightarrow> int" where
  "moved_position t b old new r =
     (if row_id r = t then new
      else if board_id r = b \<and> new \<le> position r \<and> position r < old
        then position r + 1
      else if board_id r = b \<and> old < position r \<and> position r \<le> new
        then position r - 1
      else position r)"

section \<open>Sequences of operations\<close>

text \<open>The five operations on the table. An operation that ends in an error has written
  nothing, so the store after it is the store before it.\<close>

datatype ledger_op =
    Create task_data
  | Delete int
  | Swap int int
  | Move int "int option"
  | Relocate int int "int option"

fun apply_op :: "ledger_op \<Rightarrow> store \<Rightarrow> store" where
  "apply_op (Create d) s = (case create d s of Inl e \<Rightarrow> s | Inr (task, s') \<Rightarrow> s')"
| "apply_op (Delete i) s = (case delete i s of Inl e \<Rightarrow> s | Inr s' \<Rightarrow> s')"
| "apply_op (Swap a b) s = (case reorder a b s of Inl e \<Rightarrow> s | Inr s' \<Rightarrow> s')"
| "apply_op (Move i p) s = (case reorderByPosition i p s of Inl e \<Rightarrow> s | Inr s' \<Rightarrow> s')"
| "apply_op (Relocate i b p) s = (case moveToBoard i b p s of Inl e \<Rightarrow> s | Inr (task, s') \<Rightarrow> s')"

definition run :: "ledger_op list \<Rightarrow> store \<Rightarrow> store" where
  "run ops s = fold apply_op ops s"

text \<open>The number of rows of a board.\<close>

definition count_in :: "int \<Rightarrow> store \<Rightarrow> int" where
  "count_in b s = int (length (rows_of b (tasks s)))"

text \<open>An operation is refused when the repository answers it with an error.\<close>

fun refused :: "ledger_op \<Rightarrow> store \<Rightarrow> bool" where
  "refused (Create d) s = isl (create d s)"
| "refused (Delete i) s = isl (delete i s)"
| "refused (Swap a b) s = isl (reorder a b s)"
| "refused (Move i p) s = isl (reorderByPosition i p s)"
| "refused (Relocate i b p) s = isl (moveToBoard i b p s)"

text \<open>The operations that stay within the dense range of a board: every operation that
  is refused, and, of those carried out, a create whose row lands at the tail of its
  board, a delete of the row in last position (or of no row at all), a swap inside one
  board, a move to a position from 0 up to the row count of the board less one. A
  relocation qualifies only when it is refused.\<close>

fun in_place :: "ledger_op \<Rightarrow> store \<Rightarrow> bool" where
  "in_place (Create d) s =
     (case create d s of
        Inl e \<Rightarrow> True
      | Inr (task, s') \<Rightarrow> position task = count_in (board_id task) s)"
| "in_place (Delete i) s =
     (case delete i s of
        Inl e \<Rightarrow> True
      | Inr s' \<Rightarrow>
         (case select_by_id i (tasks s) of
            None \<Rightarrow> True
          | Some r \<Rightarrow> position r + 1 = count_in (board_id r) s))"
| "in_place (Swap a b) s =
     (case reorder a b s of
        Inl e \<Rightarrow> True
      | Inr s' \<Rightarrow>
         (case (select_by_id a (tasks s), select_by_id b (tasks s)) of
            (Some ra, Some rb) \<Rightarrow> board_id ra = board_id rb
          | _ \<Rightarrow> True))"
| "in_place (Move i p) s =
     (case reorderByPosition i p s of
        Inl e \<Rightarrow> True
      | Inr s' \<Rightarrow>
         (case (p, select_by_id i (tasks s)) of
            (Some new, Some r) \<Rightarrow> 0 \<le> new \<and> new < count_in (board_id r) s
          | _ \<Rightarrow> True))"
| "in_place (Relocate i b p) s =
     (case moveToBoard i b p s of Inl e \<Rightarrow> True | Inr x \<Rightarrow> False)"

fun all_in_place :: "ledger_op list \<Rightarrow> store \<Rightarrow> bool" where
  "all_in_place [] s = True"
| "all_in_place (x # xs) s = (in_place x s \<and> all_in_place xs (apply_op x s))"

definition example_ops :: "ledger_op list" where
  "example_ops =
     [Create \<lparr>data_title = Some ''D'', data_position = Some 3, data_board_id = Some 1\<rparr>,
      Move 3 (Some 0),
      Swap 2 4,
      Delete 2,
      Create \<lparr>data_title = Some ''E'', data_position = Some 0, data_board_id = Some 2\<rparr>,
      Create \<lparr>data_title = None, data_position = Some 7, data_board_id = Some 1\<rparr>,
      Move 5 None,
      Swap 1 9,
      Relocate 1 1 None]"

section \<open>Lookups and single-row updates\<close>

lemma select_by_id_SomeD:
  "select_by_id i rows = Some r \<Longrightarrow> r \<in> set rows \<and> row_id r = i"
  by (induction rows) (auto simp: select_by_id_def split: if_splits)

lemma select_by_id_None: "select_by_id i rows = None \<longleftrightarrow> i \<notin> set (map row_id rows)"
  by (induction rows) (auto simp: select_by_id_def)

lemma select_by_id_unique:
  "distinct (map row_id rows) \<Longrightarrow> r \<in> set rows \<Longrightarrow> select_by_id (row_id r) rows = Some r"
  by (induction rows) (auto simp: select_by_id_def)

lemma select_by_id_map:
  "(\<And>r. row_id (f r) = row_id r) \<Longrightarrow>
     select_by_id i (map f rows) = map_option f (select_by_id i rows)"
  by (induction rows) (auto simp: select_by_id_def)

lemma select_update_position:
  "select_by_id i (update_position p j rows) =
     map_option (\<lambda>r. if row_id r = j then r\<lparr>position := p\<rparr> else r) (select_by_id i rows)"
  unfolding update_position_def by (rule select_by_id_map) simp

lemma row_ids_update_position [simp]:
  "map row_id (update_position p j rows) = map row_id rows"
  by (simp add: update_position_def comp_def if_distrib cong: if_cong)

lemma update_position_same:
  assumes "distinct (map row_id rows)" and "select_by_id i rows = Some r" and "position r = p"
  shows "update_position p i rows = rows"
proof -
  have "\<And>x. x \<in> set rows \<Longrightarrow> row_id x = i \<Longrightarrow> x = r"
    using assms(1,2) select_by_id_unique by fastforce
  then have "\<And>x. x \<in> set rows \<Longrightarrow> (if row_id x = i then x\<lparr>position := p\<rparr> else x) = x"
    using assms(3) by auto
  then show ?thesis
    unfolding update_position_def by (simp add: map_idI)
qed

lemma update_position_twice:
  "update_position p i (update_position q i rows) = update_position p i rows"
  by (simp add: update_position_def)

lemma update_position_commute:
  "i \<noteq> j \<Longrightarrow> update_position p i (update_position q j rows) =
     update_position q j (update_position p i rows)"
  by (auto simp: update_position_def)

lemma trim_Nil [simp]: "trim [] = []"
  by (simp add: trim_def)

section \<open>Density of a board\<close>

lemma dense_all: "dense rows \<longleftrightarrow> (\<forall>b. dense_board b rows)"
proof
  assume d: "dense rows"
  show "\<forall>b. dense_board b rows"
  proof
    fix b
    show "dense_board b rows"
    proof (cases "b \<in> set (map board_id rows)")
      case True
      with d show ?thesis by (auto simp: dense_def)
    next
      case False
      then have "rows_of b rows = []"
        by (auto simp: rows_of_def filter_empty_conv)
      then show ?thesis by (simp add: dense_board_def positions_in_def)
    qed
  qed
next
  assume "\<forall>b. dense_board b rows"
  then show "dense rows" by (simp add: dense_def)
qed

lemma dense_board_iff:
  "dense_board b rows \<longleftrightarrow>
     position ` set (rows_of b rows) = {0 ..< int (length (rows_of b rows))}"
  by (simp add: dense_board_def positions_in_def)

lemma rows_of_map:
  "(\<And>r. board_id (f r) = board_id r) \<Longrightarrow> rows_of b (map f rows) = map f (rows_of b rows)"
  by (induction rows) (auto simp: rows_of_def)

lemma dense_board_map:
  assumes "\<And>r. board_id (f r) = board_id r"
  shows "dense_board b (map f rows) \<longleftrightarrow>
     (\<lambda>r. position (f r)) ` set (rows_of b rows) = {0 ..< int (length (rows_of b rows))}"
  by (simp add: dense_board_iff rows_of_map [of f, OF assms] image_image)

lemma in_rows_of: "r \<in> set (rows_of b rows) \<longleftrightarrow> r \<in> set rows \<and> board_id r = b"
  by (auto simp: rows_of_def)

lemma row_by_id:
  assumes "distinct (map row_id rows)" and "select_by_id i rows = Some r"
    and "x \<in> set rows" and "row_id x = i"
  shows "x = r"
  using assms select_by_id_unique by fastforce

subsection \<open>A swap inside one board\<close>

lemma swap_rows:
  "update_position pa b (update_position pb a rows) =
     map (\<lambda>r. if row_id r = b then r\<lparr>position := pa\<rparr>
               else if row_id r = a then r\<lparr>position := pb\<rparr> else r) rows"
  by (auto simp: update_position_def)

lemma swap_keeps_dense_board:
  assumes dist: "distinct (map row_id rows)"
    and a: "select_by_id a rows = Some ra"
    and b: "select_by_id b rows = Some rb"
    and same: "board_id ra = board_id rb"
    and d: "dense_board c rows"
  shows "dense_board c (update_position (position ra) b (update_position (position rb) a rows))"
proof -
  let ?f = "\<lambda>r. if row_id r = b then r\<lparr>position := position ra\<rparr>
               else if row_id r = a then r\<lparr>position := position rb\<rparr> else r"
  let ?R = "set (rows_of c rows)"
  from a have ra: "ra \<in> set rows" "row_id ra = a" by (auto dest: select_by_id_SomeD)
  from b have rb: "rb \<in> set rows" "row_id rb = b" by (auto dest: select_by_id_SomeD)
  have ua: "\<And>x. x \<in> set rows \<Longrightarrow> row_id x = a \<Longrightarrow> x = ra"
    using row_by_id [OF dist a] by blast
  have ub: "\<And>x. x \<in> set rows \<Longrightarrow> row_id x = b \<Longrightarrow> x = rb"
    using row_by_id [OF dist b] by blast
  have "(\<lambda>r. position (?f r)) ` ?R = position ` ?R"
  proof (cases "board_id ra = c")
    case False
    have "\<And>r. r \<in> ?R \<Longrightarrow> position (?f r) = position r"
      using False same ua ub by (auto simp: in_rows_of)
    then show ?thesis by (auto simp: image_iff)
  next
    case True
    then have inR: "ra \<in> ?R" "rb \<in> ?R" using ra rb same by (auto simp: in_rows_of)
    show ?thesis
    proof (intro set_eqI iffI)
      fix p assume "p \<in> (\<lambda>r. position (?f r)) ` ?R"
      then obtain r where r: "r \<in> ?R" "p = position (?f r)" by auto
      then have "p = position ra \<or> p = position rb \<or> p = position r"
        by (auto split: if_splits)
      with inR r(1) show "p \<in> position ` ?R" by auto
    next
      fix p assume "p \<in> position ` ?R"
      then obtain r where r: "r \<in> ?R" "p = position r" by auto
      then have rr: "r \<in> set rows" by (simp add: in_rows_of)
      consider "row_id r = a" | "row_id r = b" | "row_id r \<noteq> a" "row_id r \<noteq> b" by blast
      then show "p \<in> (\<lambda>r. position (?f r)) ` ?R"
      proof cases
        case 1
        with ua rr have "r = ra" by simp
        then have "p = position (?f rb)" using r(2) rb by simp
        with inR show ?thesis by blast
      next
        case 2
        with ub rr have "r = rb" by simp
        moreover have "position (?f ra) = position rb"
        proof (cases "a = b")
          case True
          then have "ra = rb" using ub [OF ra(1)] ra(2) by simp
          with True ra show ?thesis by simp
        next
          case False
          with ra show ?thesis by simp
        qed
        ultimately have "p = position (?f ra)" using r(2) by simp
        with inR show ?thesis by blast
      next
        case 3
        then have "p = position (?f r)" using r(2) by simp
        with r(1) show ?thesis by blast
      qed
    qed
  qed
  then show ?thesis
    using d unfolding swap_rows
    by (subst dense_board_map) (auto simp: dense_board_iff)
qed

subsection \<open>A move within a board\<close>

lemma reorderByPosition_rows:
  assumes dist: "distinct (map row_id (tasks s))"
    and t: "select_by_id t (tasks s) = Some rt"
    and nz: "t \<noteq> 0"
  shows "reorderByPosition t (Some new) s =
     Inr (s\<lparr>tasks := map (\<lambda>r. r\<lparr>position := moved_position t (board_id rt) (position rt) new r\<rparr>)
                         (tasks s)\<rparr>)"
proof -
  let ?b = "board_id rt" and ?old = "position rt"
  let ?f = "\<lambda>r. r\<lparr>position := moved_position t ?b ?old new r\<rparr>"
  consider "?old = new" | "new < ?old" | "?old < new" by linarith
  then show ?thesis
  proof cases
    case 1
    have "\<And>r. r \<in> set (tasks s) \<Longrightarrow> ?f r = r"
    proof -
      fix r assume r: "r \<in> set (tasks s)"
      show "?f r = r"
      proof (cases "row_id r = t")
        case True
        with r have "r = rt" using row_by_id [OF dist t] by blast
        with 1 True show ?thesis by (simp add: moved_position_def)
      next
        case False
        with 1 show ?thesis by (simp add: moved_position_def)
      qed
    qed
    then have "map ?f (tasks s) = tasks s" by (simp add: map_idI)
    with 1 t nz show ?thesis by (simp add: reorderByPosition_def)
  next
    case 2
    have "update_position new t (increment_between ?b new ?old (tasks s)) = map ?f (tasks s)"
      using 2 by (auto simp: update_position_def increment_between_def moved_position_def)
    with 2 t nz show ?thesis by (simp add: reorderByPosition_def)
  next
    case 3
    have "update_position new t (decrement_between ?b ?old new (tasks s)) = map ?f (tasks s)"
      using 3 by (auto simp: update_position_def decrement_between_def moved_position_def)
    with 3 t nz show ?thesis by (simp add: reorderByPosition_def)
  qed
qed

lemma move_keeps_dense_board:
  assumes dist: "distinct (map row_id rows)"
    and t: "select_by_id t rows = Some rt"
    and lo: "0 \<le> new" and hi: "new < int (length (rows_of (board_id rt) rows))"
    and db: "dense_board (board_id rt) rows"
    and dc: "dense_board c rows"
  shows "dense_board c (map (\<lambda>r. r\<lparr>position := moved_position t (board_id rt) (position rt) new r\<rparr>) rows)"
proof -
  let ?b = "board_id rt" and ?old = "position rt"
  let ?g = "moved_position t ?b ?old new"
  let ?R = "set (rows_of c rows)"
  let ?n = "int (length (rows_of c rows))"
  from t have rt: "rt \<in> set rows" "row_id rt = t" by (auto dest: select_by_id_SomeD)
  have ut: "\<And>x. x \<in> set rows \<Longrightarrow> row_id x = t \<Longrightarrow> x = rt"
    using row_by_id [OF dist t] by blast
  from dc have R: "position ` ?R = {0 ..< ?n}" by (simp add: dense_board_iff)
  have "?g ` ?R = {0 ..< ?n}"
  proof (cases "c = ?b")
    case False
    have "\<And>r. r \<in> ?R \<Longrightarrow> ?g r = position r"
    proof -
      fix r assume r: "r \<in> ?R"
      then have "row_id r \<noteq> t" using ut False by (auto simp: in_rows_of)
      with r False show "?g r = position r" by (simp add: moved_position_def in_rows_of)
    qed
    then have "?g ` ?R = position ` ?R" by (auto simp: image_iff)
    with R show ?thesis by simp
  next
    case True
    then have rtR: "rt \<in> ?R" using rt by (simp add: in_rows_of)
    then have "?old \<in> position ` ?R" by blast
    with R have old: "0 \<le> ?old" "?old < ?n" by auto
    from hi True have new: "new < ?n" by simp
    have at: "\<And>q. 0 \<le> q \<Longrightarrow> q < ?n \<Longrightarrow> \<exists>r \<in> ?R. position r = q"
    proof -
      fix q assume "0 \<le> q" "q < ?n"
      then have "q \<in> position ` ?R" using R by simp
      then show "\<exists>r \<in> ?R. position r = q" by auto
    qed
    have other: "\<And>r. r \<in> ?R \<Longrightarrow> position r \<noteq> ?old \<Longrightarrow> row_id r \<noteq> t"
      using ut by (auto simp: in_rows_of)
    show ?thesis
    proof (intro set_eqI iffI)
      fix q assume "q \<in> ?g ` ?R"
      then obtain r where r: "r \<in> ?R" "q = ?g r" by auto
      then have "position r \<in> position ` ?R" by blast
      with R have "0 \<le> position r" "position r < ?n" by auto
      with r(2) lo new old show "q \<in> {0 ..< ?n}"
        by (auto simp: moved_position_def split: if_splits)
    next
      fix q assume "q \<in> {0 ..< ?n}"
      then have q: "0 \<le> q" "q < ?n" by auto
      consider (target) "q = new"
        | (up) "q \<noteq> new" "new < q" "q \<le> ?old"
        | (down) "q \<noteq> new" "?old \<le> q" "q < new"
        | (rest) "q \<noteq> new" "\<not> (new < q \<and> q \<le> ?old)" "\<not> (?old \<le> q \<and> q < new)"
        by linarith
      then show "q \<in> ?g ` ?R"
      proof cases
        case target
        then have "?g rt = q" using rt by (simp add: moved_position_def)
        with rtR show ?thesis by blast
      next
        case up
        with q lo obtain r where r: "r \<in> ?R" "position r = q - 1"
          using at [of "q - 1"] by auto
        with up have "row_id r \<noteq> t" using other [of r] by simp
        with r up True have "?g r = q" by (simp add: moved_position_def in_rows_of)
        with r(1) show ?thesis by blast
      next
        case down
        with q new old obtain r where r: "r \<in> ?R" "position r = q + 1"
          using at [of "q + 1"] by auto
        with down have "row_id r \<noteq> t" using other [of r] by simp
        with r down True have "?g r = q" by (simp add: moved_position_def in_rows_of)
        with r(1) show ?thesis by blast
      next
        case rest
        from q obtain r where r: "r \<in> ?R" "position r = q"
          using at [of q] by auto
        from rest have "q \<noteq> ?old" by linarith
        with r have "row_id r \<noteq> t" using other [of r] by simp
        with r rest have "?g r = q" by (auto simp: moved_position_def)
        with r(1) show ?thesis by blast
      qed
    qed
  qed
  then show ?thesis
    by (subst dense_board_map) simp_all
qed

subsection \<open>A create at the tail\<close>

lemma rows_of_append: "rows_of b (xs @ ys) = rows_of b xs @ rows_of b ys"
  by (simp add: rows_of_def)

lemma append_keeps_dense_board:
  assumes "dense_board c rows" and "position x = int (length (rows_of (board_id x) rows))"
  shows "dense_board c (rows @ [x])"
proof (cases "board_id x = c")
  case True
  with assms show ?thesis
    by (auto simp: dense_board_iff rows_of_append rows_of_def)
next
  case False
  with assms show ?thesis
    by (simp add: dense_board_iff rows_of_append rows_of_def)
qed

subsection \<open>A delete of the last row\<close>

lemma length_filter_other:
  "distinct (map f xs) \<Longrightarrow> r \<in> set xs \<Longrightarrow>
     length (filter (\<lambda>x. f x \<noteq> f r) xs) = length xs - 1"
proof (induction xs)
  case Nil
  then show ?case by simp
next
  case (Cons x xs)
  show ?case
  proof (cases "x = r")
    case True
    from Cons.prems True have "f r \<notin> f ` set xs" by simp
    then have "\<And>y. y \<in> set xs \<Longrightarrow> f y \<noteq> f r" by (metis imageI)
    then have "filter (\<lambda>x. f x \<noteq> f r) xs = xs" by (simp add: filter_id_conv)
    with True show ?thesis by simp
  next
    case False
    with Cons.prems have r: "r \<in> set xs" and "f x \<noteq> f r" by auto
    with Cons show ?thesis by (cases xs) auto
  qed
qed

lemma dense_board_distinct:
  assumes "dense_board b rows"
  shows "distinct (positions_in b rows)"
proof -
  from assms have "card (set (positions_in b rows)) = length (positions_in b rows)"
    by (simp add: dense_board_def)
  then show ?thesis by (rule card_distinct)
qed

lemma rows_of_filter: "rows_of b (filter P rows) = filter P (rows_of b rows)"
  by (induction rows) (auto simp: rows_of_def)

lemma distinct_rows_of:
  "distinct (map row_id rows) \<Longrightarrow> distinct (map row_id (rows_of b rows))"
  by (simp add: rows_of_def distinct_map_filter)

lemma delete_last_keeps_dense_board:
  assumes dist: "distinct (map row_id rows)"
    and t: "select_by_id i rows = Some r"
    and last: "position r + 1 = int (length (rows_of (board_id r) rows))"
    and dc: "dense_board c rows"
  shows "dense_board c (delete_by_id i rows)"
proof -
  from t have r: "r \<in> set rows" "row_id r = i" by (auto dest: select_by_id_SomeD)
  have ur: "\<And>x. x \<in> set rows \<Longrightarrow> row_id x = i \<Longrightarrow> x = r"
    using row_by_id [OF dist t] by blast
  let ?xs = "rows_of c rows"
  have eq: "rows_of c (delete_by_id i rows) = filter (\<lambda>x. row_id x \<noteq> i) ?xs"
    by (simp add: delete_by_id_def rows_of_filter)
  show ?thesis
  proof (cases "board_id r = c")
    case False
    have "\<And>x. x \<in> set ?xs \<Longrightarrow> row_id x \<noteq> i"
    proof
      fix x assume x: "x \<in> set ?xs" and "row_id x = i"
      then have "x = r" using ur by (simp add: in_rows_of)
      with x False show False by (simp add: in_rows_of)
    qed
    then have "filter (\<lambda>x. row_id x \<noteq> i) ?xs = ?xs" by (simp add: filter_id_conv)
    with dc eq show ?thesis by (simp add: dense_board_iff)
  next
    case True
    with r have rin: "r \<in> set ?xs" by (simp add: in_rows_of)
    have dxs: "distinct (map row_id ?xs)" using dist by (rule distinct_rows_of)
    have len: "length (filter (\<lambda>x. row_id x \<noteq> i) ?xs) = length ?xs - 1"
      using length_filter_other [OF dxs rin] r(2) by simp
    from rin have pos: "0 < length ?xs" by (cases ?xs) auto
    from dc have R: "position ` set ?xs = {0 ..< int (length ?xs)}"
      by (simp add: dense_board_iff)
    have inj: "inj_on position (set ?xs)"
      using dense_board_distinct [OF dc] by (simp add: positions_in_def distinct_map)
    have "\<And>x. x \<in> set ?xs \<Longrightarrow> (row_id x \<noteq> i) = (x \<noteq> r)"
      using ur r(2) in_rows_of by blast
    then have "set (filter (\<lambda>x. row_id x \<noteq> i) ?xs) = set ?xs - {r}"
      by auto
    then have "position ` set (filter (\<lambda>x. row_id x \<noteq> i) ?xs) = position ` set ?xs - {position r}"
      using inj rin by (simp add: inj_on_image_set_diff [of position "set ?xs"])
    also have "\<dots> = {0 ..< int (length ?xs - 1)}"
      using R last True pos by auto
    finally show ?thesis using eq len by (simp add: dense_board_iff)
  qed
qed

lemma delete_by_id_absent:
  "select_by_id i rows = None \<Longrightarrow> delete_by_id i rows = rows"
  by (auto simp: select_by_id_None delete_by_id_def filter_id_conv)

subsection \<open>One operation\<close>

lemma wf_store_same_ids:
  "wf_store s \<Longrightarrow> map row_id rows' = map row_id (tasks s) \<Longrightarrow> wf_store (s\<lparr>tasks := rows'\<rparr>)"
proof -
  assume w: "wf_store s" and m: "map row_id rows' = map row_id (tasks s)"
  from w have "\<forall>i \<in> set (map row_id (tasks s)). 0 < i \<and> i \<le> lastID s"
    by (auto simp: wf_store_def)
  with m have "\<forall>i \<in> set (map row_id rows'). 0 < i \<and> i \<le> lastID s" by simp
  then have "\<forall>r \<in> set rows'. 0 < row_id r \<and> row_id r \<le> lastID s" by auto
  with w m show ?thesis by (simp add: wf_store_def)
qed

lemma create_step:
  assumes w: "wf_store s" and d: "\<forall>c. dense_board c (tasks s)"
    and g: "in_place (Create data) s"
  shows "wf_store (apply_op (Create data) s) \<and> (\<forall>c. dense_board c (tasks (apply_op (Create data) s)))"
proof (cases "create data s")
  case (Inl e)
  with w d show ?thesis by simp
next
  case (Inr x)
  then obtain t p b where f: "data_title data = Some t" "data_position data = Some p"
      "data_board_id data = Some b"
    and ok: "validate (Task (lastID s + 1) t p b)"
    and x: "x = (Task (lastID s + 1) t p b,
                 \<lparr>tasks = tasks s @ [Task (lastID s + 1) t p b], lastID = lastID s + 1\<rparr>)"
    by (auto simp: create_def Let_def split: option.splits if_splits)
  let ?task = "Task (lastID s + 1) t p b"
  from g Inr x have p: "p = int (length (rows_of b (tasks s)))"
    by (simp add: count_in_def Task_def)
  have s': "apply_op (Create data) s = \<lparr>tasks = tasks s @ [?task], lastID = lastID s + 1\<rparr>"
    using Inr x by simp
  have "wf_store \<lparr>tasks = tasks s @ [?task], lastID = lastID s + 1\<rparr>"
  proof -
    from w have bound: "\<forall>r \<in> set (tasks s). 0 < row_id r \<and> row_id r \<le> lastID s"
      and dist: "distinct (map row_id (tasks s))" and "0 \<le> lastID s"
      by (simp_all add: wf_store_def)
    moreover from bound have "lastID s + 1 \<notin> row_id ` set (tasks s)" by auto
    ultimately show ?thesis
      by (auto simp: wf_store_def Task_def)
  qed
  moreover have "\<forall>c. dense_board c (tasks s @ [?task])"
    using d p by (auto intro!: append_keeps_dense_board simp: Task_def)
  ultimately show ?thesis using s' by simp
qed

lemma delete_step:
  assumes w: "wf_store s" and d: "\<forall>c. dense_board c (tasks s)"
    and g: "in_place (Delete i) s"
  shows "wf_store (apply_op (Delete i) s) \<and> (\<forall>c. dense_board c (tasks (apply_op (Delete i) s)))"
proof -
  have s': "apply_op (Delete i) s = s\<lparr>tasks := delete_by_id i (tasks s)\<rparr>"
    by (simp add: delete_def)
  from w have dist: "distinct (map row_id (tasks s))" by (simp add: wf_store_def)
  have "wf_store (s\<lparr>tasks := delete_by_id i (tasks s)\<rparr>)"
    using w by (auto simp: wf_store_def delete_by_id_def distinct_map_filter)
  moreover have "\<forall>c. dense_board c (delete_by_id i (tasks s))"
  proof (cases "select_by_id i (tasks s)")
    case None
    with d show ?thesis by (simp add: delete_by_id_absent)
  next
    case (Some r)
    with g have "position r + 1 = int (length (rows_of (board_id r) (tasks s)))"
      by (simp add: count_in_def delete_def)
    with d Some dist show ?thesis
      by (auto intro: delete_last_keeps_dense_board)
  qed
  ultimately show ?thesis using s' by simp
qed

lemma swap_step:
  assumes w: "wf_store s" and d: "\<forall>c. dense_board c (tasks s)"
    and g: "in_place (Swap a b) s"
  shows "wf_store (apply_op (Swap a b) s) \<and> (\<forall>c. dense_board c (tasks (apply_op (Swap a b) s)))"
proof (cases "reorder a b s")
  case (Inl e)
  with w d show ?thesis by simp
next
  case (Inr s')
  then obtain ra rb where a: "select_by_id a (tasks s) = Some ra"
    and b: "select_by_id b (tasks s) = Some rb"
    and s': "s' = s\<lparr>tasks := update_position (position ra) b
                               (update_position (position rb) a (tasks s))\<rparr>"
    by (auto simp: reorder_def Let_def split: option.splits if_splits)
  from w have dist: "distinct (map row_id (tasks s))" by (simp add: wf_store_def)
  from g Inr a b have same: "board_id ra = board_id rb" by simp
  have "wf_store s'" unfolding s' using w by (rule wf_store_same_ids) simp
  moreover have "\<forall>c. dense_board c (tasks s')"
    unfolding s' using d swap_keeps_dense_board [OF dist a b same] by simp
  ultimately show ?thesis using Inr by simp
qed

lemma move_step:
  assumes w: "wf_store s" and d: "\<forall>c. dense_board c (tasks s)"
    and g: "in_place (Move i p) s"
  shows "wf_store (apply_op (Move i p) s) \<and> (\<forall>c. dense_board c (tasks (apply_op (Move i p) s)))"
proof (cases "reorderByPosition i p s")
  case (Inl e)
  with w d show ?thesis by simp
next
  case (Inr s')
  then obtain new rt where p: "p = Some new" and nz: "i \<noteq> 0"
    and t: "select_by_id i (tasks s) = Some rt"
    by (auto simp: reorderByPosition_def split: option.splits if_splits)
  from w have dist: "distinct (map row_id (tasks s))" by (simp add: wf_store_def)
  let ?rows' = "map (\<lambda>r. r\<lparr>position := moved_position i (board_id rt) (position rt) new r\<rparr>) (tasks s)"
  from Inr p have s': "s' = s\<lparr>tasks := ?rows'\<rparr>"
    using reorderByPosition_rows [OF dist t nz, of new] by simp
  from g Inr p t have rng: "0 \<le> new" "new < int (length (rows_of (board_id rt) (tasks s)))"
    by (simp_all add: count_in_def)
  have "wf_store s'" unfolding s' using w by (rule wf_store_same_ids) (simp add: comp_def)
  moreover have "\<forall>c. dense_board c (tasks s')"
    unfolding s' using d move_keeps_dense_board [OF dist t rng] by simp
  ultimately show ?thesis using Inr by simp
qed

lemma in_place_step:
  assumes "wf_store s" and "\<forall>c. dense_board c (tasks s)" and "in_place x s"
  shows "wf_store (apply_op x s) \<and> (\<forall>c. dense_board c (tasks (apply_op x s)))"
proof (cases x)
  case (Create data)
  with assms show ?thesis using create_step by blast
next
  case (Delete i)
  with assms show ?thesis using delete_step by blast
next
  case (Swap a b)
  with assms show ?thesis using swap_step by blast
next
  case (Move i p)
  with assms show ?thesis using move_step by blast
next
  case (Relocate i b p)
  with assms show ?thesis by (auto split: sum.splits)
qed

text \<open>Every refused operation is among them, and changes nothing.\<close>

lemma refused_in_place: "refused x s \<Longrightarrow> in_place x s"
  by (cases x) (auto simp: isl_def)

lemma refused_apply_op: "refused x s \<Longrightarrow> apply_op x s = s"
  by (cases x) (auto simp: isl_def)

subsection \<open>Appending to a board that is dense and not empty\<close>

lemma max_position_Max:
  "rows_of b rows \<noteq> [] \<Longrightarrow> max_position b rows = Max (set (positions_in b rows))"
proof (cases "positions_in b rows")
  case Nil
  moreover assume "rows_of b rows \<noteq> []"
  ultimately show ?thesis by (simp add: positions_in_def)
next
  case (Cons p ps)
  then show ?thesis
    using Max.set_eq_fold [of p ps] by (simp add: max_position_def)
qed

lemma append_position_on_dense_board:
  assumes "dense_board b rows" and "rows_of b rows \<noteq> []"
  shows "max_position b rows + 1 = int (length (rows_of b rows))"
proof -
  let ?n = "length (rows_of b rows)"
  from assms(2) have n: "0 < ?n" by simp
  from assms(1) have "set (positions_in b rows) = {0 ..< int ?n}"
    by (simp add: dense_board_def positions_in_def)
  moreover have "Max {0 ..< int ?n} = int ?n - 1"
    using n by (intro Max_eqI) auto
  ultimately show ?thesis using max_position_Max [OF assms(2)] by simp
qed

section \<open>Swapping two tasks\<close>

text \<open>
  Claim C8. For any two existing tasks \<open>a\<close> and \<open>b\<close>, \<^verbatim>\<open>reorder(a, b)\<close> succeeds and
  exchanges exactly the two stored positions: \<open>a\<close> gets the old position of \<open>b\<close>,
  \<open>b\<close> gets the old position of \<open>a\<close>, every other row and the order of the table stay
  as they were; and a second \<^verbatim>\<open>reorder(a, b)\<close> gives back the original store.
\<close>

theorem reorder_swaps_and_is_involutive:
  assumes "wf_store s"
    and "select_by_id a (tasks s) = Some ra"
    and "select_by_id b (tasks s) = Some rb"
  shows "\<exists>s'. reorder a b s = Inr s' \<and>
           select_by_id a (tasks s') = Some (ra\<lparr>position := position rb\<rparr>) \<and>
           select_by_id b (tasks s') = Some (rb\<lparr>position := position ra\<rparr>) \<and>
           (\<forall>i. i \<noteq> a \<and> i \<noteq> b \<longrightarrow> select_by_id i (tasks s') = select_by_id i (tasks s)) \<and>
           map row_id (tasks s') = map row_id (tasks s) \<and>
           reorder a b s' = Inr s"
proof -
  let ?rows = "tasks s"
  let ?rows' = "update_position (position ra) b (update_position (position rb) a ?rows)"
  let ?s' = "s\<lparr>tasks := ?rows'\<rparr>"
  from assms have dist: "distinct (map row_id ?rows)" by (simp add: wf_store_def)
  from assms(2) have ra: "ra \<in> set ?rows" "row_id ra = a" by (auto dest: select_by_id_SomeD)
  from assms(3) have rb: "rb \<in> set ?rows" "row_id rb = b" by (auto dest: select_by_id_SomeD)
  from assms(1) ra rb have nz: "a \<noteq> 0" "b \<noteq> 0" by (auto simp: wf_store_def)
  have same: "a = b \<Longrightarrow> ra = rb" using assms(2,3) by simp
  have run: "reorder a b s = Inr ?s'"
    using nz assms(2,3) by (simp add: reorder_def)
  have la: "select_by_id a ?rows' = Some (ra\<lparr>position := position rb\<rparr>)"
    using assms(2,3) ra rb same by (auto simp: select_update_position)
  have lb: "select_by_id b ?rows' = Some (rb\<lparr>position := position ra\<rparr>)"
    using assms(2,3) ra rb same by (auto simp: select_update_position)
  have others: "\<forall>i. i \<noteq> a \<and> i \<noteq> b \<longrightarrow> select_by_id i ?rows' = select_by_id i ?rows"
  proof (intro allI impI)
    fix i assume i: "i \<noteq> a \<and> i \<noteq> b"
    show "select_by_id i ?rows' = select_by_id i ?rows"
    proof (cases "select_by_id i ?rows")
      case None
      then show ?thesis by (simp add: select_update_position)
    next
      case (Some r)
      then have "row_id r = i" by (auto dest: select_by_id_SomeD)
      with i Some show ?thesis by (simp add: select_update_position)
    qed
  qed
  have again: "reorder a b ?s' = Inr s"
  proof -
    have "reorder a b ?s' =
        Inr (?s'\<lparr>tasks := update_position (position rb) b (update_position (position ra) a ?rows')\<rparr>)"
      using nz la lb by (simp add: reorder_def)
    moreover have "update_position (position rb) b (update_position (position ra) a ?rows') = ?rows"
    proof (cases "a = b")
      case True
      with same have "ra = rb" by simp
      with True show ?thesis
        using update_position_same [OF dist assms(2) refl]
        by (simp add: update_position_twice)
    next
      case False
      then have "update_position (position rb) b (update_position (position ra) a ?rows') =
          update_position (position rb) b (update_position (position ra) a ?rows)"
        by (simp add: update_position_commute [of a b] update_position_twice)
      also have "\<dots> = ?rows"
        using update_position_same [OF dist assms(2) refl]
              update_position_same [OF dist assms(3) refl] by simp
      finally show ?thesis .
    qed
    ultimately show ?thesis by simp
  qed
  from run la lb others again show ?thesis by simp
qed

theorem reorder_swaps_and_is_involutive_witness:
  "wf_store scenario \<and>
   select_by_id 1 (tasks scenario) = Some (Task 1 ''A'' 0 1) \<and>
   select_by_id 3 (tasks scenario) = Some (Task 3 ''C'' 2 1) \<and>
   (\<exists>s'. reorder 1 3 scenario = Inr s' \<and>
      select_by_id 1 (tasks s') = Some (Task 1 ''A'' 2 1) \<and>
      select_by_id 3 (tasks s') = Some (Task 3 ''C'' 0 1) \<and>
      reorder 1 3 s' = Inr scenario)"
proof -
  have w: "wf_store scenario" by code_simp
  have a: "select_by_id 1 (tasks scenario) = Some (Task 1 ''A'' 0 1)" by code_simp
  have b: "select_by_id 3 (tasks scenario) = Some (Task 3 ''C'' 2 1)" by code_simp
  show ?thesis
    using reorder_swaps_and_is_involutive [OF w a b] w a b
    by (auto simp: Task_def)
qed

section \<open>Moving a task within its board\<close>

text \<open>
  Claim C7. Let \<open>t\<close> be an existing task at position \<open>old\<close> of a dense board and let
  \<open>0 \<le> new < count\<close>. Then \<^verbatim>\<open>reorderByPosition(t, new)\<close> succeeds, and in the resulting
  table the task \<open>t\<close> is at \<open>new\<close>; every other row of the board whose position was in
  \<open>[new, old)\<close> is one higher (the case \<open>new < old\<close>); every other row of the board whose
  position was in \<open>(old, new]\<close> is one lower (the case \<open>new > old\<close>); all remaining rows
  are as before. The board is dense again. With A at 0, B at 1 and C at 2, moving C to 0
  gives A at 1, B at 2 and C at 0.
\<close>

theorem reorderByPosition_shifts_range:
  assumes w: "wf_store s"
    and t: "select_by_id t (tasks s) = Some rt"
    and d: "dense_board (board_id rt) (tasks s)"
    and lo: "0 \<le> new" and hi: "new < count_in (board_id rt) s"
  shows "\<exists>s'. reorderByPosition t (Some new) s = Inr s' \<and>
     (\<forall>r \<in> set (tasks s).
        select_by_id (row_id r) (tasks s') =
          Some (r\<lparr>position :=
            if row_id r = t then new
            else if board_id r = board_id rt \<and> new \<le> position r \<and> position r < position rt
              then position r + 1
            else if board_id r = board_id rt \<and> position rt < position r \<and> position r \<le> new
              then position r - 1
            else position r\<rparr>)) \<and>
     map row_id (tasks s') = map row_id (tasks s) \<and>
     dense_board (board_id rt) (tasks s')"
proof -
  let ?f = "\<lambda>r. r\<lparr>position := moved_position t (board_id rt) (position rt) new r\<rparr>"
  let ?s' = "s\<lparr>tasks := map ?f (tasks s)\<rparr>"
  from w have dist: "distinct (map row_id (tasks s))" by (simp add: wf_store_def)
  from t have "rt \<in> set (tasks s)" "row_id rt = t" by (auto dest: select_by_id_SomeD)
  with w have nz: "t \<noteq> 0" by (auto simp: wf_store_def)
  have run: "reorderByPosition t (Some new) s = Inr ?s'"
    using dist t nz by (rule reorderByPosition_rows)
  have look: "\<forall>r \<in> set (tasks s). select_by_id (row_id r) (tasks ?s') = Some (?f r)"
    using dist by (simp add: select_by_id_map select_by_id_unique)
  have ids: "map row_id (tasks ?s') = map row_id (tasks s)"
    by (simp add: comp_def)
  have "dense_board (board_id rt) (tasks ?s')"
    using move_keeps_dense_board [OF dist t lo _ d d] hi by (simp add: count_in_def)
  with run look ids show ?thesis
    unfolding moved_position_def by blast
qed

theorem reorderByPosition_shifts_range_witness:
  "wf_store scenario \<and> select_by_id 3 (tasks scenario) = Some (Task 3 ''C'' 2 1) \<and>
   dense_board 1 (tasks scenario) \<and> (0::int) \<le> 0 \<and> 0 < count_in 1 scenario \<and>
   (\<exists>s'. reorderByPosition 3 (Some 0) scenario = Inr s' \<and>
      select_by_id 1 (tasks s') = Some (Task 1 ''A'' 1 1) \<and>
      select_by_id 2 (tasks s') = Some (Task 2 ''B'' 2 1) \<and>
      select_by_id 3 (tasks s') = Some (Task 3 ''C'' 0 1))"
proof -
  have w: "wf_store scenario" by code_simp
  have t: "select_by_id 3 (tasks scenario) = Some (Task 3 ''C'' 2 1)" by code_simp
  have d: "dense_board (board_id (Task 3 ''C'' 2 1)) (tasks scenario)" by code_simp
  have lo: "(0::int) \<le> 0" by simp
  have hi: "0 < count_in (board_id (Task 3 ''C'' 2 1)) scenario" by code_simp
  have b: "board_id (Task 3 ''C'' 2 1) = 1" by code_simp
  from reorderByPosition_shifts_range [OF w t d lo hi]
  obtain s' where s': "reorderByPosition 3 (Some 0) scenario = Inr s'"
    and rows: "\<forall>r \<in> set (tasks scenario).
        select_by_id (row_id r) (tasks s') =
          Some (r\<lparr>position :=
            if row_id r = 3 then 0
            else if board_id r = board_id (Task 3 ''C'' 2 1) \<and> 0 \<le> position r \<and>
                    position r < position (Task 3 ''C'' 2 1)
              then position r + 1
            else if board_id r = board_id (Task 3 ''C'' 2 1) \<and>
                    position (Task 3 ''C'' 2 1) < position r \<and> position r \<le> 0
              then position r - 1
            else position r\<rparr>)"
    by blast
  from rows have "select_by_id 1 (tasks s') = Some (Task 1 ''A'' 1 1)"
    "select_by_id 2 (tasks s') = Some (Task 2 ''B'' 2 1)"
    "select_by_id 3 (tasks s') = Some (Task 3 ''C'' 0 1)"
    by (simp_all add: scenario_def Task_def)
  with s' w t d lo hi b show ?thesis by simp
qed

text \<open>
  The repository method on its own compares the new position with the current one
  only. It is refused exactly when the new position is \<^verbatim>\<open>undefined\<close>, the id is 0 or
  no row has the id.
\<close>

theorem reorderByPosition_fails_iff:
  "(\<exists>e. reorderByPosition taskId newPosition s = Inl e) \<longleftrightarrow>
     (newPosition = None \<or> taskId = 0 \<or> select_by_id taskId (tasks s) = None)"
  by (auto simp: reorderByPosition_def Let_def split: option.splits)

theorem reorderByPosition_fails_iff_witness:
  "\<not> (\<exists>e. reorderByPosition 1 (Some 5) scenario = Inl e) \<and>
   \<not> (\<exists>e. reorderByPosition 1 (Some (- 1)) scenario = Inl e) \<and>
   (\<exists>e. reorderByPosition 1 None scenario = Inl e) \<and>
   (\<exists>e. reorderByPosition 9 (Some 0) scenario = Inl e)"
proof -
  have a: "select_by_id 1 (tasks scenario) = Some (Task 1 ''A'' 0 1)" by code_simp
  have b: "select_by_id 9 (tasks scenario) = None" by code_simp
  show ?thesis
    using reorderByPosition_fails_iff [of 1 "Some 5" scenario]
      reorderByPosition_fails_iff [of 1 "Some (- 1)" scenario]
      reorderByPosition_fails_iff [of 1 None scenario]
      reorderByPosition_fails_iff [of 9 "Some 0" scenario] a b
    by simp
qed




section \<open>The route to the move within a board\<close>

text \<open>
  Claim C10, as the handler behaves. The id of \<^verbatim>\<open>PUT /:id/reorder-position\<close> reaches the
  handler as a string, \<^verbatim>\<open>Number.isInteger\<close> of a string is false, so every request is
  answered with status 400, the store is left as it is and the repository is never
  called. The message is "Task ID dan newPosition harus berupa angka" when the body has
  a \<^verbatim>\<open>newPosition\<close>; when it has none (or the id is the empty string) the first check
  answers "Task ID dan newPosition harus disediakan".
\<close>

theorem put_reorder_position_never_reaches_repository:
  "put_reorder_position seg newPosition s =
     (Response 400
        (if seg = [] \<or> newPosition = JUndefined
         then ''Task ID dan newPosition harus disediakan''
         else ''Task ID dan newPosition harus berupa angka''), s) \<and>
   (\<forall>i n. reorderByPosition_checks (JStr seg) newPosition \<noteq> CallRepository i n)"
  by (simp add: put_reorder_position_def reorderByPosition_handler_def
      reorderByPosition_checks_def)

theorem put_reorder_position_never_reaches_repository_witness:
  "put_reorder_position ''3'' (JInt 0) scenario =
     (Response 400 ''Task ID dan newPosition harus berupa angka'', scenario) \<and>
   (\<forall>i n. reorderByPosition_checks (JStr ''3'') (JInt 0) \<noteq> CallRepository i n)"
  using put_reorder_position_never_reaches_repository [of "''3''" "JInt 0" scenario]
  by simp

text \<open>A body without \<^verbatim>\<open>newPosition\<close> gets the other message.\<close>

theorem put_reorder_position_message_counterexample:
  "put_reorder_position ''3'' JUndefined scenario =
     (Response 400 ''Task ID dan newPosition harus disediakan'', scenario) \<and>
   fst (put_reorder_position ''3'' JUndefined scenario) \<noteq>
     Response 400 ''Task ID dan newPosition harus berupa angka''"
  by (simp add: put_reorder_position_def reorderByPosition_handler_def
      reorderByPosition_checks_def)

section \<open>Deleting a task\<close>

text \<open>
  Claim C2, as the repository behaves. \<^verbatim>\<open>delete(id)\<close> always succeeds; afterwards no row
  has the id, and the table is the old table without that row: every other row, of the
  same board or of another, keeps its position. Nothing is renumbered.
\<close>

theorem delete_removes_one_row_only:
  "\<exists>s'. delete i s = Inr s' \<and> select_by_id i (tasks s') = None \<and>
     tasks s' = filter (\<lambda>r. row_id r \<noteq> i) (tasks s) \<and> lastID s' = lastID s"
  by (auto simp: delete_def delete_by_id_def select_by_id_None)

theorem delete_removes_one_row_only_witness:
  "\<exists>s'. delete 2 scenario = Inr s' \<and> select_by_id 2 (tasks s') = None \<and>
     tasks s' = [Task 1 ''A'' 0 1, Task 3 ''C'' 2 1] \<and> lastID s' = 3"
proof -
  have f: "filter (\<lambda>r. row_id r \<noteq> 2) (tasks scenario) = [Task 1 ''A'' 0 1, Task 3 ''C'' 2 1]"
    by (simp add: scenario_def Task_def)
  have l: "lastID scenario = 3" by (simp add: scenario_def)
  show ?thesis
    using delete_removes_one_row_only [of 2 scenario] f l by simp
qed

text \<open>Deleting B, at position 1 of three, leaves C at position 2 and a gap at 1.\<close>

theorem delete_leaves_gap_counterexample:
  "dense (tasks scenario) \<and>
   select_by_id 2 (tasks scenario) = Some (Task 2 ''B'' 1 1) \<and>
   select_by_id 3 (tasks scenario) = Some (Task 3 ''C'' 2 1) \<and>
   delete 2 scenario = Inr \<lparr>tasks = [Task 1 ''A'' 0 1, Task 3 ''C'' 2 1], lastID = 3\<rparr> \<and>
   map_option position (select_by_id 3 [Task 1 ''A'' 0 1, Task 3 ''C'' 2 1]) \<noteq> Some (2 - 1) \<and>
   positions_in 1 [Task 1 ''A'' 0 1, Task 3 ''C'' 2 1] = [0, 2] \<and>
   \<not> dense [Task 1 ''A'' 0 1, Task 3 ''C'' 2 1]"
  by code_simp

section \<open>Creating a task\<close>

text \<open>
  Claim C3, as the repository behaves. \<^verbatim>\<open>create\<close> with a title that is not blank, a
  position \<open>p \<ge> 0\<close> and a board id \<open>b > 0\<close> succeeds and appends one row with position
  \<open>p\<close> to the table; the rows that were there keep their positions, whatever \<open>p\<close> is.
  Nothing is shifted and \<open>p\<close> is not compared with the number of rows of the board.
\<close>

theorem create_inserts_without_shifting:
  assumes "trim t \<noteq> []" and "0 \<le> p" and "0 < b"
  shows "create \<lparr>data_title = Some t, data_position = Some p, data_board_id = Some b\<rparr> s =
           Inr (Task (lastID s + 1) t p b,
                \<lparr>tasks = tasks s @ [Task (lastID s + 1) t p b], lastID = lastID s + 1\<rparr>)"
proof -
  from assms(1) have "t \<noteq> []" by auto
  with assms show ?thesis
    by (simp add: create_def validate_def Task_def Let_def)
qed

theorem create_inserts_without_shifting_witness:
  "trim ''D'' \<noteq> [] \<and> (0::int) \<le> 1 \<and> (0::int) < 1 \<and>
   create \<lparr>data_title = Some ''D'', data_position = Some 1, data_board_id = Some 1\<rparr> scenario =
     Inr (Task 4 ''D'' 1 1, \<lparr>tasks = tasks scenario @ [Task 4 ''D'' 1 1], lastID = 4\<rparr>)"
proof -
  have t: "trim ''D'' \<noteq> []" by code_simp
  have l: "lastID scenario + 1 = 4" by code_simp
  show ?thesis
    using create_inserts_without_shifting [OF t, of 1 1 scenario] t l by simp
qed

text \<open>Creating D at position 1 of the three-task board leaves B at 1 and C at 2.\<close>

theorem create_does_not_shift_counterexample:
  "dense (tasks scenario) \<and>
   create \<lparr>data_title = Some ''D'', data_position = Some 1, data_board_id = Some 1\<rparr> scenario =
     Inr (Task 4 ''D'' 1 1,
          \<lparr>tasks = [Task 1 ''A'' 0 1, Task 2 ''B'' 1 1, Task 3 ''C'' 2 1, Task 4 ''D'' 1 1],
           lastID = 4\<rparr>) \<and>
   map_option position
     (select_by_id 2 [Task 1 ''A'' 0 1, Task 2 ''B'' 1 1, Task 3 ''C'' 2 1, Task 4 ''D'' 1 1])
     \<noteq> Some 2 \<and>
   positions_in 1 [Task 1 ''A'' 0 1, Task 2 ''B'' 1 1, Task 3 ''C'' 2 1, Task 4 ''D'' 1 1] =
     [0, 1, 2, 1]"
  by code_simp

text \<open>
  Claim C9. The title that \<^verbatim>\<open>create\<close> and \<^verbatim>\<open>update\<close> write is the title they were
  given: the constructor stores its argument, only \<^verbatim>\<open>setTitle\<close> trims, and neither
  goes through the setter. A title with a space on either side is stored with both
  spaces, where the setter would have stored it without.
\<close>

theorem create_persists_untrimmed_title:
  "create \<lparr>data_title = Some '' A '', data_position = Some 0, data_board_id = Some 1\<rparr>
        \<lparr>tasks = [], lastID = 0\<rparr> =
      Inr (Task 1 '' A '' 0 1, \<lparr>tasks = [Task 1 '' A '' 0 1], lastID = 1\<rparr>) \<and>
   update 1 \<lparr>data_title = Some '' B '', data_position = Some 0, data_board_id = Some 1\<rparr>
        \<lparr>tasks = [Task 1 ''A'' 0 1], lastID = 1\<rparr> =
      Inr (Task 1 '' B '' 0 1, \<lparr>tasks = [Task 1 '' B '' 0 1], lastID = 1\<rparr>) \<and>
   trim '' A '' = ''A'' \<and> title (Task 1 '' A '' 0 1) \<noteq> trim '' A '' \<and>
   trim '' B '' = ''B'' \<and> title (Task 1 '' B '' 0 1) \<noteq> trim '' B '' \<and>
   setTitle '' A '' (Task 1 ''x'' 0 1) = Inr (Task 1 ''A'' 0 1)"
  by code_simp

section \<open>Moving a task to another board\<close>

text \<open>
  Claim C4. After A has moved from board 1 (A at 0, B at 1, C at 2) to board 2, the
  loop over the rows left in board 1 writes \<^verbatim>\<open>index + 1\<close>: B and C end at positions 1
  and 2, not 0 and 1, and board 1 is not dense.
\<close>

theorem moveToBoard_renumbers_source_from_one:
  "moveToBoard 1 2 None scenario =
     Inr (Task 1 ''A'' 1 2,
          \<lparr>tasks = [Task 1 ''A'' 1 2, Task 2 ''B'' 1 1, Task 3 ''C'' 2 1], lastID = 3\<rparr>) \<and>
   positions_in 1 [Task 1 ''A'' 1 2, Task 2 ''B'' 1 1, Task 3 ''C'' 2 1] = [1, 2] \<and>
   \<not> dense_board 1 [Task 1 ''A'' 1 2, Task 2 ''B'' 1 1, Task 3 ''C'' 2 1]"
  by code_simp

text \<open>
  Claim C5. Board 2 has no rows, and a move of A to board 2 without a position puts A
  at position \<^verbatim>\<open>COALESCE(MAX(position), 0) + 1 = 1\<close>, not at the row count 0.
\<close>

theorem moveToBoard_appends_to_empty_board_at_one:
  "count_in 2 scenario = 0 \<and> max_position 2 (tasks scenario) + 1 = 1 \<and>
   map_sum id (\<lambda>(task, s'). (position task, select_by_id 1 (tasks s')))
     (moveToBoard 1 2 None scenario) = Inr (1, Some (Task 1 ''A'' 1 2))"
  by code_simp

section \<open>Density over a sequence of operations\<close>

text \<open>
  Claim C1, as the repository behaves. Start from a store with unique ids in which
  every board is dense, and run any sequence of operations in which each operation is
  refused or is one of: a create whose position is the current row count of its board,
  a delete of the row in the last position of its board, a swap of two rows of one
  board, a move within a board to a position from 0 up to the row count less one. Then
  every board is dense at the end. (Nothing is said here about a relocation that is
  carried out.)
\<close>

theorem density_kept_by_in_place_operations:
  assumes "wf_store s" and "dense (tasks s)" and "all_in_place ops s"
  shows "dense (tasks (run ops s)) \<and> wf_store (run ops s)"
proof -
  have "wf_store s \<Longrightarrow> \<forall>c. dense_board c (tasks s) \<Longrightarrow> all_in_place ops s \<Longrightarrow>
      wf_store (fold apply_op ops s) \<and> (\<forall>c. dense_board c (tasks (fold apply_op ops s)))"
  proof (induction ops arbitrary: s)
    case Nil
    then show ?case by simp
  next
    case (Cons x xs)
    from Cons.prems have "wf_store (apply_op x s) \<and> (\<forall>c. dense_board c (tasks (apply_op x s)))"
      using in_place_step [of s x] by simp
    moreover from Cons.prems have "all_in_place xs (apply_op x s)" by simp
    ultimately show ?case using Cons.IH [of "apply_op x s"] by simp
  qed
  with assms show ?thesis by (simp add: run_def dense_all)
qed

theorem density_kept_by_in_place_operations_witness:
  "wf_store scenario \<and> dense (tasks scenario) \<and> all_in_place example_ops scenario \<and>
   dense (tasks (run example_ops scenario)) \<and>
   map (\<lambda>r. (title r, position r, board_id r)) (tasks (run example_ops scenario)) =
     [(''A'', 1, 1), (''C'', 0, 1), (''D'', 2, 1), (''E'', 0, 2)]"
proof -
  have w: "wf_store scenario" by code_simp
  have d: "dense (tasks scenario)" by code_simp
  have a: "all_in_place example_ops scenario" by code_simp
  have r: "map (\<lambda>r. (title r, position r, board_id r)) (tasks (run example_ops scenario)) =
     [(''A'', 1, 1), (''C'', 0, 1), (''D'', 2, 1), (''E'', 0, 2)]" by code_simp
  show ?thesis
    using density_kept_by_in_place_operations [OF w d a] w d a r by simp
qed

text \<open>A delete in the middle of a dense board is enough to lose density.\<close>

theorem density_lost_by_delete_counterexample:
  "wf_store scenario \<and> dense (tasks scenario) \<and>
   tasks (run [Delete 2] scenario) = [Task 1 ''A'' 0 1, Task 3 ''C'' 2 1] \<and>
   positions_in 1 (tasks (run [Delete 2] scenario)) = [0, 2] \<and>
   \<not> dense (tasks (run [Delete 2] scenario))"
  by code_simp

end
